theory Spec2Isabelle
  imports Complex_Main "HOL-Library.Word" "HOL-Library.Log_Nat" "HOL-Library.AList"
begin

section \<open>JavaScript values\<close>

text \<open>
  The cart transform (\<^verbatim>\<open>extensions/bundle-cart-transform/src/cart_transform_run.js\<close>)
  is dynamically typed: it reads properties off whatever the runtime hands it,
  tests truthiness, and branches on \<^verbatim>\<open>typeof\<close> and \<^verbatim>\<open>Array.isArray\<close>.
  The embedding therefore works on an explicit type of JavaScript values.

  A JavaScript string is a sequence of UTF-16 code units; \<open>js\<close> writes an ASCII
  literal as such a sequence.
\<close>

type_synonym jschar = "16 word"

type_synonym jsstring = "jschar list"

definition js :: "string \<Rightarrow> jsstring" where
  "js s = map (\<lambda>c. of_char c) s"

text \<open>
  A Number is an IEEE double. Every finite double is a rational; the two zeros are
  both \<open>Finite 0\<close> (the program never tells them apart).
\<close>

datatype jsnumber = NaN | PosInfinity | NegInfinity | Finite rat

text \<open>
  An object is its list of own properties, in insertion order, with distinct keys.
  The values the function receives are deserialised JSON, so objects are plain
  objects and arrays have no holes.
\<close>

datatype jsval =
    Undefined
  | Null
  | Bool bool
  | Num jsnumber
  | Str jsstring
  | Arr "jsval list"
  | Obj "(jsstring \<times> jsval) list"

datatype error = TypeError | SyntaxError

text \<open>Sequencing of computations that may throw: the first exception wins.\<close>

definition bind_res :: "error + 'a \<Rightarrow> ('a \<Rightarrow> error + 'b) \<Rightarrow> error + 'b" where
  "bind_res r f = (case r of Inl e \<Rightarrow> Inl e | Inr v \<Rightarrow> f v)"

text \<open>\<^verbatim>\<open>try { r } catch (_) { }\<close> around an assignment: the old value stays on a throw.\<close>

definition try_catch :: "error + 'a \<Rightarrow> 'a \<Rightarrow> 'a" where
  "try_catch r old = (case r of Inl _ \<Rightarrow> old | Inr v \<Rightarrow> v)"

fun map_res :: "('a \<Rightarrow> error + 'b) \<Rightarrow> 'a list \<Rightarrow> error + 'b list" where
  "map_res f [] = Inr []"
| "map_res f (x # xs) =
     bind_res (f x) (\<lambda>y. bind_res (map_res f xs) (\<lambda>ys. Inr (y # ys)))"

text \<open>\<^verbatim>\<open>ToBoolean\<close>: what \<^verbatim>\<open>!x\<close>, \<^verbatim>\<open>||\<close> and \<^verbatim>\<open>filter(Boolean)\<close> test.\<close>

fun truthy :: "jsval \<Rightarrow> bool" where
  "truthy Undefined = False"
| "truthy Null = False"
| "truthy (Bool b) = b"
| "truthy (Num n) = (n \<noteq> NaN \<and> n \<noteq> Finite 0)"
| "truthy (Str s) = (s \<noteq> [])"
| "truthy (Arr xs) = True"
| "truthy (Obj kvs) = True"

fun nullish :: "jsval \<Rightarrow> bool" where
  "nullish Undefined = True"
| "nullish Null = True"
| "nullish _ = False"

text \<open>\<^verbatim>\<open>a ?? b\<close>\<close>

definition coalesce :: "jsval \<Rightarrow> jsval \<Rightarrow> jsval" where
  "coalesce a b = (if nullish a then b else a)"

text \<open>
  Reading a property of a value that is neither \<^verbatim>\<open>null\<close> nor \<^verbatim>\<open>undefined\<close>.
  The program reads only the names \<^verbatim>\<open>cart\<close>, \<^verbatim>\<open>lines\<close>, \<^verbatim>\<open>merchandise\<close>,
  \<^verbatim>\<open>__typename\<close>, \<^verbatim>\<open>bundleRefs\<close>, \<^verbatim>\<open>type\<close>, \<^verbatim>\<open>jsonValue\<close>, \<^verbatim>\<open>value\<close>,
  \<^verbatim>\<open>quantity\<close>, \<^verbatim>\<open>id\<close> and \<^verbatim>\<open>gid\<close>; none of them is defined on a prototype, so
  only an object's own properties can answer and every primitive and array answers
  \<^verbatim>\<open>undefined\<close>.
\<close>

fun property :: "jsval \<Rightarrow> jsstring \<Rightarrow> jsval" where
  "property (Obj kvs) k = (case map_of kvs k of None \<Rightarrow> Undefined | Some v \<Rightarrow> v)"
| "property _ k = Undefined"

text \<open>\<^verbatim>\<open>v.k\<close> throws a TypeError on \<^verbatim>\<open>null\<close> and \<^verbatim>\<open>undefined\<close>; \<^verbatim>\<open>v?.k\<close> does not.\<close>

definition get_prop :: "jsval \<Rightarrow> jsstring \<Rightarrow> error + jsval" where
  "get_prop v k = (if nullish v then Inl TypeError else Inr (property v k))"

definition opt_chain :: "jsval \<Rightarrow> jsstring \<Rightarrow> jsval" where
  "opt_chain v k = (if nullish v then Undefined else property v k)"

text \<open>
  \<^verbatim>\<open>for (const x of v)\<close>: an array yields its elements, a string its code points
  (a surrogate pair is one element), anything else is not iterable.
\<close>

fun code_points :: "jsstring \<Rightarrow> jsstring list" where
  "code_points (c # d # cs) =
     (if 0xD800 \<le> c \<and> c \<le> 0xDBFF \<and> 0xDC00 \<le> d \<and> d \<le> 0xDFFF
      then [c, d] # code_points cs
      else [c] # code_points (d # cs))"
| "code_points [c] = [[c]]"
| "code_points [] = []"

fun iterate :: "jsval \<Rightarrow> error + jsval list" where
  "iterate (Arr xs) = Inr xs"
| "iterate (Str s) = Inr (map Str (code_points s))"
| "iterate _ = Inl TypeError"

section \<open>String built-ins\<close>

text \<open>\<^verbatim>\<open>s.startsWith(p)\<close>\<close>

definition startsWith :: "jsstring \<Rightarrow> jsstring \<Rightarrow> bool" where
  "startsWith s p = (take (length p) s = p)"

text \<open>
  \<^verbatim>\<open>s.split(sep)\<close> for a one-unit separator: the pieces between the separators; the
  empty string splits into one empty piece.
\<close>

fun split :: "jsstring \<Rightarrow> jschar \<Rightarrow> jsstring list" where
  "split [] sep = [[]]"
| "split (c # cs) sep =
     (if c = sep then [] # split cs sep
      else (case split cs sep of [] \<Rightarrow> [[c]] | p # ps \<Rightarrow> (c # p) # ps))"

text \<open>
  \<^verbatim>\<open>s.trim()\<close> strips the code units of WhiteSpace and LineTerminator from both
  ends.
\<close>

definition is_space :: "jschar \<Rightarrow> bool" where
  "is_space c \<longleftrightarrow>
     c \<in> {0x09, 0x0A, 0x0B, 0x0C, 0x0D, 0x20, 0xA0, 0x1680, 0x2028, 0x2029, 0x202F,
          0x205F, 0x3000, 0xFEFF} \<or> (0x2000 \<le> c \<and> c \<le> 0x200A)"

definition trim :: "jsstring \<Rightarrow> jsstring" where
  "trim s = rev (dropWhile is_space (rev (dropWhile is_space s)))"

section \<open>\<^verbatim>\<open>JSON.parse\<close>\<close>

text \<open>
  The built-in the transform falls back on. A JSON number denotes the double nearest
  to the literal's mathematical value, ties to the even significand; beyond the
  largest double it is an infinity, and at most half the least subnormal it is zero.
\<close>

definition pow2 :: "int \<Rightarrow> rat" where
  "pow2 e = (if 0 \<le> e then 2 ^ nat e else 1 / 2 ^ nat (- e))"

definition floor_log2 :: "rat \<Rightarrow> int" where
  "floor_log2 q =
     (let (n, d) = quotient_of q;
          e = bitlen n - bitlen d
      in if pow2 e \<le> q then e else e - 1)"

definition round_half_even :: "rat \<Rightarrow> int" where
  "round_half_even x =
     (let f = \<lfloor>x\<rfloor>; r = x - of_int f
      in if r < 1 / 2 then f
         else if 1 / 2 < r then f + 1
         else if even f then f else f + 1)"

definition round_to_double :: "rat \<Rightarrow> jsnumber" where
  "round_to_double q =
     (if q = 0 then Finite 0
      else
        let a = \<bar>q\<bar>;
            e = max (floor_log2 a) (- 1022);
            ulp = pow2 (e - 52);
            r = of_int (round_half_even (a / ulp)) * ulp
        in if pow2 1024 \<le> r then (if q < 0 then NegInfinity else PosInfinity)
           else Finite (if q < 0 then - r else r))"

datatype token =
    TLBrace | TRBrace | TLBrack | TRBrack | TColon | TComma
  | TString jsstring
  | TNumber jsnumber
  | TLiteral jsval

definition is_json_ws :: "jschar \<Rightarrow> bool" where
  "is_json_ws c \<longleftrightarrow> c = 0x20 \<or> c = 0x09 \<or> c = 0x0A \<or> c = 0x0D"

definition is_digit :: "jschar \<Rightarrow> bool" where
  "is_digit c \<longleftrightarrow> 0x30 \<le> c \<and> c \<le> 0x39"

definition hex_digit :: "jschar \<Rightarrow> jschar option" where
  "hex_digit c =
     (if 0x30 \<le> c \<and> c \<le> 0x39 then Some (c - 0x30)
      else if 0x41 \<le> c \<and> c \<le> 0x46 then Some (c - 0x41 + 10)
      else if 0x61 \<le> c \<and> c \<le> 0x66 then Some (c - 0x61 + 10)
      else None)"

definition hex4 :: "jschar \<Rightarrow> jschar \<Rightarrow> jschar \<Rightarrow> jschar \<Rightarrow> jschar option" where
  "hex4 a b c d =
     (case (hex_digit a, hex_digit b, hex_digit c, hex_digit d) of
        (Some w, Some x, Some y, Some z) \<Rightarrow> Some (((w * 16 + x) * 16 + y) * 16 + z)
      | _ \<Rightarrow> None)"

text \<open>The one-letter escapes: \<^verbatim>\<open>\" \\ \/ \b \f \n \r \t\<close>.\<close>

definition escape_char :: "jschar \<Rightarrow> jschar option" where
  "escape_char e =
     (if e = 0x22 \<or> e = 0x5C \<or> e = 0x2F then Some e
      else if e = 0x62 then Some 0x08
      else if e = 0x66 then Some 0x0C
      else if e = 0x6E then Some 0x0A
      else if e = 0x72 then Some 0x0D
      else if e = 0x74 then Some 0x09
      else None)"

text \<open>
  The body of a string literal, after its opening quote: the decoded string (collected
  in reverse in \<open>acc\<close>) and the input after the closing quote. Control characters
  below U+0020 may not appear unescaped.
\<close>

fun scan_string :: "jsstring \<Rightarrow> jsstring \<Rightarrow> (jsstring \<times> jsstring) option" where
  "scan_string [] acc = None"
| "scan_string (c # cs) acc =
     (if c = 0x22 then Some (rev acc, cs)
      else if c = 0x5C then
        (case cs of
           [] \<Rightarrow> None
         | e # es \<Rightarrow>
             if e = 0x75 then
               (case es of
                  h1 # h2 # h3 # h4 # rest \<Rightarrow>
                    (case hex4 h1 h2 h3 h4 of
                       None \<Rightarrow> None
                     | Some u \<Rightarrow> scan_string rest (u # acc))
                | _ \<Rightarrow> None)
             else
               (case escape_char e of
                  None \<Rightarrow> None
                | Some x \<Rightarrow> scan_string es (x # acc)))
      else if c < 0x20 then None
      else scan_string cs (c # acc))"

definition digits_value :: "jsstring \<Rightarrow> int" where
  "digits_value ds = foldl (\<lambda>n c. 10 * n + uint (c - 0x30)) 0 ds"

text \<open>
  A number literal: \<^verbatim>\<open>-? (0 | [1-9][0-9]*) (. [0-9]+)? ([eE] [+-]? [0-9]+)?\<close>.
  Each part returns what it read and the input after it. The integer part is read
  as the longest run of digits; a run with a leading zero is refused here, where the
  grammar would stop after the zero and then find a digit that no JSON text allows
  after a value.
\<close>

definition digits :: "jsstring \<Rightarrow> jsstring \<times> jsstring" where
  "digits cs = (takeWhile is_digit cs, dropWhile is_digit cs)"

fun minus_sign :: "jsstring \<Rightarrow> bool \<times> jsstring" where
  "minus_sign (c # cs) = (if c = 0x2D then (True, cs) else (False, c # cs))"
| "minus_sign [] = (False, [])"

definition int_part :: "jsstring \<Rightarrow> (jsstring \<times> jsstring) option" where
  "int_part cs =
     (case digits cs of
        (ds, rest) \<Rightarrow>
          if ds = [] \<or> (1 < length ds \<and> hd ds = 0x30) then None else Some (ds, rest))"

fun frac_part :: "jsstring \<Rightarrow> (jsstring \<times> jsstring) option" where
  "frac_part (c # cs) =
     (if c = 0x2E then
        (case digits cs of (ds, rest) \<Rightarrow> if ds = [] then None else Some (ds, rest))
      else Some ([], c # cs))"
| "frac_part [] = Some ([], [])"

fun exp_sign :: "jsstring \<Rightarrow> bool \<times> jsstring" where
  "exp_sign (c # cs) =
     (if c = 0x2D then (True, cs) else if c = 0x2B then (False, cs) else (False, c # cs))"
| "exp_sign [] = (False, [])"

fun exp_part :: "jsstring \<Rightarrow> (int \<times> jsstring) option" where
  "exp_part (c # cs) =
     (if c = 0x65 \<or> c = 0x45 then
        (case exp_sign cs of
           (neg, cs') \<Rightarrow>
             (case digits cs' of
                (ds, rest) \<Rightarrow>
                  if ds = [] then None
                  else Some (if neg then - digits_value ds else digits_value ds, rest)))
      else Some (0, c # cs))"
| "exp_part [] = Some (0, [])"

text \<open>The mathematical value \<open>\<plusminus> m \<sqdot> 10\<^sup>e\<close> of a literal.\<close>

definition decimal :: "bool \<Rightarrow> int \<Rightarrow> int \<Rightarrow> rat" where
  "decimal neg m e =
     (let v = (if 0 \<le> e then of_int m * 10 ^ nat e else of_int m / 10 ^ nat (- e))
      in if neg then - v else v)"

definition scan_number :: "jsstring \<Rightarrow> (jsnumber \<times> jsstring) option" where
  "scan_number cs =
     (case minus_sign cs of
        (neg, cs1) \<Rightarrow>
          (case int_part cs1 of
             None \<Rightarrow> None
           | Some (ip, cs2) \<Rightarrow>
               (case frac_part cs2 of
                  None \<Rightarrow> None
                | Some (fp, cs3) \<Rightarrow>
                    (case exp_part cs3 of
                       None \<Rightarrow> None
                     | Some (e, cs4) \<Rightarrow>
                         Some (round_to_double
                                 (decimal neg (digits_value (ip @ fp)) (e - int (length fp))),
                               cs4)))))"

lemma scan_string_length:
  "scan_string cs acc = Some (s, rest) \<Longrightarrow> length rest < Suc (length cs)"
proof (induction cs acc rule: scan_string.induct)
  case (1 acc)
  then show ?case by simp
next
  case (2 c cs acc)
  show ?case
  proof (cases "c = 0x22")
    case True
    with "2.prems" show ?thesis by simp
  next
    case quote: False
    show ?thesis
    proof (cases "c = 0x5C")
      case esc: True
      show ?thesis
      proof (cases cs)
        case Nil
        with "2.prems" quote esc show ?thesis by simp
      next
        case (Cons e es)
        show ?thesis
        proof (cases "e = 0x75")
          case u: True
          from "2.prems" quote esc Cons u obtain h1 h2 h3 h4 r w where
            es: "es = h1 # h2 # h3 # h4 # r" and h: "hex4 h1 h2 h3 h4 = Some w"
            and call: "scan_string r (w # acc) = Some (s, rest)"
            by (auto split: list.splits option.splits)
          have "length rest < Suc (length r)"
            using "2.IH"(1) quote esc Cons u es h call by blast
          then show ?thesis using Cons es by simp
        next
          case nu: False
          from "2.prems" quote esc Cons nu obtain x where
            x: "escape_char e = Some x" and call: "scan_string es (x # acc) = Some (s, rest)"
            by (auto split: option.splits)
          have "length rest < Suc (length es)"
            using "2.IH"(2) quote esc Cons nu x call by blast
          then show ?thesis using Cons by simp
        qed
      qed
    next
      case plain: False
      with "2.prems" quote have ctl: "\<not> c < 0x20" and call: "scan_string cs (c # acc) = Some (s, rest)"
        by (auto split: if_splits)
      have "length rest < Suc (length cs)"
        using "2.IH"(3) quote plain ctl call by blast
      then show ?thesis by simp
    qed
  qed
qed

lemma digits_length: "digits cs = (ds, rest) \<Longrightarrow> length ds + length rest = length cs"
proof -
  assume "digits cs = (ds, rest)"
  then have "ds @ rest = cs"
    by (auto simp: digits_def)
  then show ?thesis
    by (metis length_append)
qed

lemma minus_sign_length: "minus_sign cs = (neg, rest) \<Longrightarrow> length rest \<le> length cs"
  by (cases cs) (auto split: if_splits)

lemma int_part_length: "int_part cs = Some (ds, rest) \<Longrightarrow> length rest < length cs"
proof -
  assume a: "int_part cs = Some (ds, rest)"
  then have "digits cs = (ds, rest)" and "ds \<noteq> []"
    by (auto simp: int_part_def split: prod.splits if_splits)
  then show ?thesis
    using digits_length [of cs ds rest] by (cases ds) auto
qed

lemma frac_part_length: "frac_part cs = Some (ds, rest) \<Longrightarrow> length rest \<le> length cs"
proof (cases cs)
  case Nil
  assume "frac_part cs = Some (ds, rest)"
  with Nil show ?thesis by simp
next
  case (Cons c cs')
  assume a: "frac_part cs = Some (ds, rest)"
  show ?thesis
  proof (cases "c = 0x2E")
    case True
    with a Cons have "digits cs' = (ds, rest)"
      by (auto split: prod.splits if_splits)
    then show ?thesis
      using digits_length [of cs' ds rest] Cons by simp
  next
    case False
    with a Cons show ?thesis by auto
  qed
qed

lemma exp_sign_length: "exp_sign cs = (neg, rest) \<Longrightarrow> length rest \<le> length cs"
  by (cases cs) (auto split: if_splits)

lemma exp_part_length: "exp_part cs = Some (e, rest) \<Longrightarrow> length rest \<le> length cs"
proof (cases cs)
  case Nil
  assume "exp_part cs = Some (e, rest)"
  with Nil show ?thesis by simp
next
  case (Cons c cs')
  assume a: "exp_part cs = Some (e, rest)"
  show ?thesis
  proof (cases "c = 0x65 \<or> c = 0x45")
    case True
    with a Cons obtain neg cs'' ds where s: "exp_sign cs' = (neg, cs'')"
      and d: "digits cs'' = (ds, rest)"
      by (auto split: prod.splits if_splits)
    from exp_sign_length [OF s] digits_length [OF d] Cons show ?thesis by simp
  next
    case False
    with a Cons show ?thesis by auto
  qed
qed

lemma scan_number_length:
  "scan_number cs = Some (n, rest) \<Longrightarrow> length rest < length cs"
proof -
  assume a: "scan_number cs = Some (n, rest)"
  obtain neg cs1 where m: "minus_sign cs = (neg, cs1)"
    by (cases "minus_sign cs")
  from a m obtain ip cs2 where i: "int_part cs1 = Some (ip, cs2)"
    by (auto simp: scan_number_def split: option.splits)
  from a m i obtain fp cs3 where f: "frac_part cs2 = Some (fp, cs3)"
    by (auto simp: scan_number_def split: option.splits)
  from a m i f obtain e where x: "exp_part cs3 = Some (e, rest)"
    by (auto simp: scan_number_def split: option.splits)
  from minus_sign_length [OF m] int_part_length [OF i] frac_part_length [OF f]
    exp_part_length [OF x]
  show ?thesis by linarith
qed

text \<open>
  The lexer. The three literal names are matched letter by letter.
\<close>

function tokenize :: "jsstring \<Rightarrow> token list option" where
  "tokenize [] = Some []"
| "tokenize (c # cs) =
     (if is_json_ws c then tokenize cs
      else if c = 0x7B then map_option ((#) TLBrace) (tokenize cs)
      else if c = 0x7D then map_option ((#) TRBrace) (tokenize cs)
      else if c = 0x5B then map_option ((#) TLBrack) (tokenize cs)
      else if c = 0x5D then map_option ((#) TRBrack) (tokenize cs)
      else if c = 0x3A then map_option ((#) TColon) (tokenize cs)
      else if c = 0x2C then map_option ((#) TComma) (tokenize cs)
      else if c = 0x22 then
        (case scan_string cs [] of
           None \<Rightarrow> None
         | Some (s, rest) \<Rightarrow> map_option ((#) (TString s)) (tokenize rest))
      else if c = 0x2D \<or> is_digit c then
        (case scan_number (c # cs) of
           None \<Rightarrow> None
         | Some (n, rest) \<Rightarrow> map_option ((#) (TNumber n)) (tokenize rest))
      else if take 4 (c # cs) = js ''true'' then
        map_option ((#) (TLiteral (Bool True))) (tokenize (drop 3 cs))
      else if take 5 (c # cs) = js ''false'' then
        map_option ((#) (TLiteral (Bool False))) (tokenize (drop 4 cs))
      else if take 4 (c # cs) = js ''null'' then
        map_option ((#) (TLiteral Null)) (tokenize (drop 3 cs))
      else None)"
  by pat_completeness auto

termination
  by (relation "measure length") (auto dest: scan_string_length scan_number_length)

text \<open>
  The parser is a pushdown automaton over the tokens. A frame is a container still
  open: an array with its elements so far (latest first), an object with its members
  so far, or an object whose next value belongs to a key already read. A repeated key
  overwrites the earlier member in place.
\<close>

datatype frame =
    FArr "jsval list"
  | FObj "(jsstring \<times> jsval) list"
  | FKey "(jsstring \<times> jsval) list" jsstring

datatype mode =
    WantValue
  | WantValueOrClose
  | WantKeyOrClose
  | WantKey
  | WantColon
  | AfterValue
  | Done jsval

text \<open>A finished value goes to the enclosing container, or is the result.\<close>

fun reduce :: "jsval \<Rightarrow> frame list \<Rightarrow> (mode \<times> frame list) option" where
  "reduce v [] = Some (Done v, [])"
| "reduce v (FArr xs # st) = Some (AfterValue, FArr (v # xs) # st)"
| "reduce v (FKey kvs k # st) = Some (AfterValue, FObj (AList.update k v kvs) # st)"
| "reduce v (FObj kvs # st) = None"

fun start_value :: "token \<Rightarrow> frame list \<Rightarrow> (mode \<times> frame list) option" where
  "start_value TLBrack st = Some (WantValueOrClose, FArr [] # st)"
| "start_value TLBrace st = Some (WantKeyOrClose, FObj [] # st)"
| "start_value (TString s) st = reduce (Str s) st"
| "start_value (TNumber n) st = reduce (Num n) st"
| "start_value (TLiteral v) st = reduce v st"
| "start_value _ st = None"

fun step :: "mode \<Rightarrow> frame list \<Rightarrow> token \<Rightarrow> (mode \<times> frame list) option" where
  "step WantValue st t = start_value t st"
| "step WantValueOrClose (FArr xs # st) TRBrack = reduce (Arr (rev xs)) st"
| "step WantValueOrClose st t = start_value t st"
| "step WantKeyOrClose (FObj kvs # st) TRBrace = reduce (Obj kvs) st"
| "step WantKeyOrClose (FObj kvs # st) (TString k) = Some (WantColon, FKey kvs k # st)"
| "step WantKey (FObj kvs # st) (TString k) = Some (WantColon, FKey kvs k # st)"
| "step WantColon st TColon = Some (WantValue, st)"
| "step AfterValue (FArr xs # st) TComma = Some (WantValue, FArr xs # st)"
| "step AfterValue (FArr xs # st) TRBrack = reduce (Arr (rev xs)) st"
| "step AfterValue (FObj kvs # st) TComma = Some (WantKey, FObj kvs # st)"
| "step AfterValue (FObj kvs # st) TRBrace = reduce (Obj kvs) st"
| "step _ _ _ = None"

fun run :: "mode \<times> frame list \<Rightarrow> token list \<Rightarrow> jsval option" where
  "run (Done v, []) [] = Some v"
| "run (m, st) [] = None"
| "run (m, st) (t # ts) = (case step m st t of None \<Rightarrow> None | Some s \<Rightarrow> run s ts)"

definition JSON_parse :: "jsstring \<Rightarrow> error + jsval" where
  "JSON_parse s =
     (case tokenize s of
        None \<Rightarrow> Inl SyntaxError
      | Some ts \<Rightarrow>
          (case run (WantValue, []) ts of
             None \<Rightarrow> Inl SyntaxError
           | Some v \<Rightarrow> Inr v))"

section \<open>The cart transform\<close>

text \<open>\<^verbatim>\<open>typeof x === "string"\<close> and \<^verbatim>\<open>a || b\<close> (the right operand has no effect here).\<close>

fun is_string :: "jsval \<Rightarrow> bool" where
  "is_string (Str s) = True"
| "is_string _ = False"

definition or_else :: "jsval \<Rightarrow> jsval \<Rightarrow> jsval" where
  "or_else a b = (if truthy a then a else b)"

subsection \<open>\<^verbatim>\<open>normalizeVariantIds\<close>\<close>

text \<open>
  Lines 59 to 68: \<^verbatim>\<open>raw\<close> starts as \<^verbatim>\<open>mf.jsonValue\<close>; when that is falsy and
  \<^verbatim>\<open>mf.value\<close> is a string, \<^verbatim>\<open>raw\<close> becomes \<^verbatim>\<open>JSON.parse(mf.value)\<close>, and
  an exception inside the \<^verbatim>\<open>try\<close> block leaves \<^verbatim>\<open>raw\<close> as it was.
\<close>

definition resolve_raw :: "jsval \<Rightarrow> error + jsval" where
  "resolve_raw mf =
     bind_res (get_prop mf (js ''jsonValue'')) (\<lambda>raw.
       Inr (try_catch
              (if \<not> truthy raw then
                 bind_res (get_prop mf (js ''value'')) (\<lambda>v.
                   case v of Str s \<Rightarrow> JSON_parse s | _ \<Rightarrow> Inr raw)
               else Inr raw)
              raw))"

text \<open>
  Lines 72 to 76, the callback of \<^verbatim>\<open>raw.map\<close>:
  \<^verbatim>\<open>typeof item === "string" ? item : item?.id || item?.gid || null\<close>.
\<close>

definition pick_id :: "jsval \<Rightarrow> jsval" where
  "pick_id item =
     (if is_string item then item
      else or_else (or_else (opt_chain item (js ''id'')) (opt_chain item (js ''gid''))) Null)"

text \<open>Lines 70 to 89: the identifiers of a resolved \<^verbatim>\<open>raw\<close>.\<close>

fun ids_of_raw :: "jsval \<Rightarrow> jsval list" where
  "ids_of_raw (Arr xs) = filter truthy (map pick_id xs)"
| "ids_of_raw (Str s) =
     (if startsWith s (js ''gid://'') then [Str s]
      else map Str (filter (\<lambda>p. startsWith p (js ''gid://'')) (map trim (split s 0x2C))))"
| "ids_of_raw _ = []"

definition normalizeVariantIds :: "jsval \<Rightarrow> error + jsval list" where
  "normalizeVariantIds mf =
     (if \<not> truthy mf then Inr []
      else bind_res (resolve_raw mf) (\<lambda>raw. Inr (ids_of_raw raw)))"

subsection \<open>\<^verbatim>\<open>cartTransformRun\<close>\<close>

record expanded_item =
  merchandiseId :: jsval
  quantity :: jsval

record line_expand =
  cartLineId :: jsval
  expandedCartItems :: "expanded_item list"

record operation =
  lineExpand :: line_expand

record cart_transform_result =
  operations :: "operation list"

definition NO_CHANGES :: cart_transform_result where
  "NO_CHANGES = \<lparr>operations = []\<rparr>"

text \<open>
  The body of the \<^verbatim>\<open>for\<close> loop (lines 23 to 47) on the operations collected so far:
  a \<^verbatim>\<open>continue\<close> returns them unchanged, the \<^verbatim>\<open>push\<close> appends one operation.
\<close>

definition loop_body :: "operation list \<Rightarrow> jsval \<Rightarrow> error + operation list" where
  "loop_body ops line =
     bind_res (get_prop line (js ''merchandise'')) (\<lambda>merch.
       if \<not> truthy merch then Inr ops
       else bind_res (get_prop merch (js ''__typename'')) (\<lambda>typename.
         if typename \<noteq> Str (js ''ProductVariant'') then Inr ops
         else bind_res (get_prop merch (js ''bundleRefs'')) (\<lambda>mf.
           if \<not> truthy mf then Inr ops
           else bind_res (get_prop mf (js ''type'')) (\<lambda>ty.
             if ty \<noteq> Str (js ''list.variant_reference'') then Inr ops
             else bind_res (normalizeVariantIds mf) (\<lambda>componentVariantIds.
               if length componentVariantIds = 0 then Inr ops
               else
                 bind_res
                   (map_res
                      (\<lambda>variantId.
                         bind_res (get_prop line (js ''quantity'')) (\<lambda>q.
                           Inr \<lparr>merchandiseId = variantId,
                                quantity = coalesce q (Num (Finite 1))\<rparr>))
                      componentVariantIds)
                   (\<lambda>items.
                      bind_res (get_prop line (js ''id'')) (\<lambda>line_id.
                        Inr (ops @ [\<lparr>lineExpand =
                                       \<lparr>cartLineId = line_id,
                                        expandedCartItems = items\<rparr>\<rparr>]))))))))"

fun for_lines :: "jsval list \<Rightarrow> operation list \<Rightarrow> error + operation list" where
  "for_lines [] ops = Inr ops"
| "for_lines (line # rest) ops = bind_res (loop_body ops line) (for_lines rest)"

text \<open>The sequence the loop runs over: \<^verbatim>\<open>input.cart.lines ?? []\<close>.\<close>

definition cart_lines :: "jsval \<Rightarrow> error + jsval list" where
  "cart_lines input =
     bind_res (get_prop input (js ''cart'')) (\<lambda>cart.
       bind_res (get_prop cart (js ''lines'')) (\<lambda>lines.
         iterate (coalesce lines (Arr []))))"

definition cartTransformRun :: "jsval \<Rightarrow> error + cart_transform_result" where
  "cartTransformRun input =
     bind_res (cart_lines input) (\<lambda>ls.
       bind_res (for_lines ls []) (\<lambda>ops. Inr \<lparr>operations = ops\<rparr>))"

text \<open>What the loop body pushes for a line taken on its own.\<close>

definition emitted :: "jsval \<Rightarrow> operation list" where
  "emitted line = (case loop_body [] line of Inl _ \<Rightarrow> [] | Inr ops \<Rightarrow> ops)"

subsection \<open>Inputs as the runtime builds them\<close>

text \<open>
  The snapshot the runtime passes is the query's JSON: \<^verbatim>\<open>{cart: {lines: [...]}}\<close>, each
  line \<^verbatim>\<open>{id, quantity, merchandise: {__typename, bundleRefs: {type, jsonValue, value}}}\<close>.
  A field that is missing or \<^verbatim>\<open>null\<close> is written \<open>Null\<close> here; the program reads both
  alike.
\<close>

definition metafield :: "jsval \<Rightarrow> jsval \<Rightarrow> jsval \<Rightarrow> jsval" where
  "metafield ty jv v = Obj [(js ''type'', ty), (js ''jsonValue'', jv), (js ''value'', v)]"

definition variant_line :: "jsval \<Rightarrow> jsval \<Rightarrow> jsval \<Rightarrow> jsval" where
  "variant_line line_id q mf =
     Obj [(js ''id'', line_id), (js ''quantity'', q),
          (js ''merchandise'',
           Obj [(js ''__typename'', Str (js ''ProductVariant'')), (js ''bundleRefs'', mf)])]"

definition cart_input :: "jsval list \<Rightarrow> jsval" where
  "cart_input ls = Obj [(js ''cart'', Obj [(js ''lines'', Arr ls)])]"

definition variant_gid :: "string \<Rightarrow> jsstring" where
  "variant_gid n = js ''gid://shopify/ProductVariant/'' @ js n"

section \<open>The transform in closed form\<close>

text \<open>
  The same functions without the exception plumbing, for the proofs: the value of
  \<^verbatim>\<open>raw\<close> after the \<^verbatim>\<open>try\<close> block of a metafield that can be read, the test
  that a line passes every \<^verbatim>\<open>continue\<close>, and the operation it then pushes. The facts
  \<open>resolve_raw_value\<close>, \<open>loop_body_skip\<close> and \<open>loop_body_push\<close> tie them to the
  functions above.
\<close>

definition raw_value :: "jsval \<Rightarrow> jsval" where
  "raw_value mf =
     (let jv = property mf (js ''jsonValue'') in
      if truthy jv then jv
      else (case property mf (js ''value'') of
              Str s \<Rightarrow> (case JSON_parse s of Inl _ \<Rightarrow> jv | Inr v \<Rightarrow> v)
            | _ \<Rightarrow> jv))"

definition bundle_refs :: "jsval \<Rightarrow> jsval" where
  "bundle_refs line = property (property line (js ''merchandise'')) (js ''bundleRefs'')"

definition qualifies :: "jsval \<Rightarrow> bool" where
  "qualifies line \<longleftrightarrow>
     truthy (property line (js ''merchandise'')) \<and>
     property (property line (js ''merchandise'')) (js ''__typename'') = Str (js ''ProductVariant'') \<and>
     truthy (bundle_refs line) \<and>
     property (bundle_refs line) (js ''type'') = Str (js ''list.variant_reference'') \<and>
     ids_of_raw (raw_value (bundle_refs line)) \<noteq> []"

definition expansion :: "jsval \<Rightarrow> operation" where
  "expansion line =
     \<lparr>lineExpand =
        \<lparr>cartLineId = property line (js ''id''),
         expandedCartItems =
           map (\<lambda>variantId.
                  \<lparr>merchandiseId = variantId,
                   quantity = coalesce (property line (js ''quantity'')) (Num (Finite 1))\<rparr>)
               (ids_of_raw (raw_value (bundle_refs line)))\<rparr>\<rparr>"

section \<open>Vocabulary of the specification\<close>

text \<open>The JSON text of a string that needs no escapes.\<close>

definition json_string :: "jsstring \<Rightarrow> jsstring" where
  "json_string s = [0x22] @ s @ [0x22]"

fun is_object :: "jsval \<Rightarrow> bool" where
  "is_object (Obj kvs) = True"
| "is_object _ = False"

fun is_positive_integer :: "jsval \<Rightarrow> bool" where
  "is_positive_integer (Num (Finite q)) = (0 < q \<and> of_int \<lfloor>q\<rfloor> = q)"
| "is_positive_integer _ = False"

text \<open>
  The input schema of the specification's data model: a cart whose lines, when it has
  any, are objects with a string identifier, a quantity that is absent or a positive
  integer, and a merchandise tagged with its kind. Nothing is asked of the metafield.
\<close>

definition conforms_line :: "jsval \<Rightarrow> bool" where
  "conforms_line line \<longleftrightarrow>
     is_object line \<and> is_string (property line (js ''id'')) \<and>
     (nullish (property line (js ''quantity'')) \<or>
      is_positive_integer (property line (js ''quantity''))) \<and>
     is_object (property line (js ''merchandise'')) \<and>
     is_string (property (property line (js ''merchandise'')) (js ''__typename''))"

definition conforms_schema :: "jsval \<Rightarrow> bool" where
  "conforms_schema input \<longleftrightarrow>
     is_object input \<and> is_object (property input (js ''cart'')) \<and>
     (case property (property input (js ''cart'')) (js ''lines'') of
        Undefined \<Rightarrow> True
      | Null \<Rightarrow> True
      | Arr ls \<Rightarrow> list_all conforms_line ls
      | _ \<Rightarrow> False)"

text \<open>
  A complete operation: a string line identifier and at least one item, each with an
  identifier that is there and a positive integer quantity.
\<close>

definition well_formed_operation :: "operation \<Rightarrow> bool" where
  "well_formed_operation op \<longleftrightarrow>
     is_string (cartLineId (lineExpand op)) \<and>
     expandedCartItems (lineExpand op) \<noteq> [] \<and>
     list_all (\<lambda>item. truthy (merchandiseId item) \<and> is_positive_integer (quantity item))
       (expandedCartItems (lineExpand op))"

definition well_formed :: "cart_transform_result \<Rightarrow> bool" where
  "well_formed res = list_all well_formed_operation (operations res)"

text \<open>
  The quantity rule in the specification's words: the line's quantity if it is a
  positive integer, else 1.
\<close>

definition claimed_quantity :: "jsval \<Rightarrow> jsval" where
  "claimed_quantity q = (if is_positive_integer q then q else Num (Finite 1))"

text \<open>
  The element rule in the specification's words: a string is kept; otherwise the
  \<^verbatim>\<open>id\<close> field, or if that is absent the \<^verbatim>\<open>gid\<close> field.
\<close>

definition claimed_pick :: "jsval \<Rightarrow> jsval" where
  "claimed_pick item =
     (if is_string item then item
      else if \<not> nullish (opt_chain item (js ''id'')) then opt_chain item (js ''id'')
      else opt_chain item (js ''gid''))"

text \<open>
  An identifier as the specification expects it: a string with the prefix
  \<^verbatim>\<open>gid://\<close>.
\<close>

fun is_gid :: "jsval \<Rightarrow> bool" where
  "is_gid (Str s) = startsWith s (js ''gid://'')"
| "is_gid _ = False"

section \<open>Example snapshots\<close>

definition list_variant_reference :: jsval where
  "list_variant_reference = Str (js ''list.variant_reference'')"

text \<open>A bundle of variants 1 and 2, three times in the cart.\<close>

definition bundle_line :: jsval where
  "bundle_line =
     variant_line (Str (js ''line-1'')) (Num (Finite 3))
       (metafield list_variant_reference
          (Arr [Str (variant_gid ''1''), Str (variant_gid ''2'')]) Null)"

definition bundle_operation :: operation where
  "bundle_operation =
     \<lparr>lineExpand =
        \<lparr>cartLineId = Str (js ''line-1''),
         expandedCartItems =
           [\<lparr>merchandiseId = Str (variant_gid ''1''), quantity = Num (Finite 3)\<rparr>,
            \<lparr>merchandiseId = Str (variant_gid ''2''), quantity = Num (Finite 3)\<rparr>]\<rparr>\<rparr>"

text \<open>A variant with no metafield, and a line that is not a variant.\<close>

definition plain_line :: jsval where
  "plain_line = variant_line (Str (js ''line-2'')) (Num (Finite 1)) Null"

definition custom_line :: jsval where
  "custom_line =
     Obj [(js ''id'', Str (js ''line-3'')), (js ''quantity'', Num (Finite 2)),
          (js ''merchandise'', Obj [(js ''__typename'', Str (js ''CustomProduct''))])]"

text \<open>A bundle of variant 9 only, with no quantity.\<close>

definition single_line :: jsval where
  "single_line =
     variant_line (Str (js ''line-4'')) Null
       (metafield list_variant_reference (Arr [Str (variant_gid ''9'')]) Null)"

definition single_operation :: operation where
  "single_operation =
     \<lparr>lineExpand =
        \<lparr>cartLineId = Str (js ''line-4''),
         expandedCartItems =
           [\<lparr>merchandiseId = Str (variant_gid ''9''), quantity = Num (Finite 1)\<rparr>]\<rparr>\<rparr>"

text \<open>The type tag with one more character, on an otherwise valid bundle.\<close>

definition suffixed_type_line :: jsval where
  "suffixed_type_line =
     variant_line (Str (js ''line-5'')) (Num (Finite 1))
       (metafield (Str (js ''list.variant_references''))
          (Arr [Str (variant_gid ''1''), Str (variant_gid ''2'')]) Null)"

text \<open>
  A bundle whose list holds, around variants 1 and 2, an empty string, a
  \<^verbatim>\<open>null\<close>, an object with an empty \<^verbatim>\<open>id\<close> and an empty object.
\<close>

definition padded_line :: jsval where
  "padded_line =
     variant_line (Str (js ''line-6'')) (Num (Finite 2))
       (metafield list_variant_reference
          (Arr [Str [], Str (variant_gid ''1''), Null, Obj [(js ''id'', Str [])],
                Obj [(js ''gid'', Str (variant_gid ''2''))], Obj []])
          Null)"

definition padded_operation :: operation where
  "padded_operation =
     \<lparr>lineExpand =
        \<lparr>cartLineId = Str (js ''line-6''),
         expandedCartItems =
           [\<lparr>merchandiseId = Str (variant_gid ''1''), quantity = Num (Finite 2)\<rparr>,
            \<lparr>merchandiseId = Str (variant_gid ''2''), quantity = Num (Finite 2)\<rparr>]\<rparr>\<rparr>"

text \<open>A bundle of variant 1 with quantity 0.\<close>

definition zero_line :: jsval where
  "zero_line =
     variant_line (Str (js ''line-7'')) (Num (Finite 0))
       (metafield list_variant_reference (Arr [Str (variant_gid ''1'')]) Null)"

text \<open>An element with an empty \<^verbatim>\<open>id\<close> and a \<^verbatim>\<open>gid\<close>.\<close>

definition empty_id_item :: jsval where
  "empty_id_item = Obj [(js ''id'', Str []), (js ''gid'', Str (variant_gid ''2''))]"

text \<open>A list that mixes bare strings with objects carrying \<^verbatim>\<open>id\<close> or \<^verbatim>\<open>gid\<close>.\<close>

definition mixed_items :: "jsval list" where
  "mixed_items =
     [Str (variant_gid ''1''), Obj [(js ''id'', Str (variant_gid ''2''))], Null,
      Obj [(js ''gid'', Str (variant_gid ''3''))], Obj [(js ''title'', Str (js ''none''))],
      Str (variant_gid ''4'')]"

text \<open>A list holding a string without the prefix and an object whose \<^verbatim>\<open>id\<close> is 42.\<close>

definition unchecked_items :: "jsval list" where
  "unchecked_items = [Str (js ''not-a-gid''), Obj [(js ''id'', Num (Finite 42))]]"

text \<open>
  A conforming cart whose metafields are malformed in six ways, around one that is
  partly usable: no metafield, a raw value that is not JSON, a number for the parsed
  value, an object for it, a string for the whole metafield, an array of useless
  entries, and a list with one good identifier among bad entries.
\<close>

definition malformed_cart :: jsval where
  "malformed_cart =
     cart_input
       [variant_line (Str (js ''a'')) (Num (Finite 1)) Null,
        variant_line (Str (js ''b'')) (Num (Finite 1))
          (metafield list_variant_reference Null (Str (js ''{not json''))),
        variant_line (Str (js ''c'')) (Num (Finite 1))
          (metafield list_variant_reference (Num (Finite 5)) Null),
        variant_line (Str (js ''d'')) (Num (Finite 1))
          (metafield list_variant_reference (Obj [(js ''id'', Str (variant_gid ''1''))]) Null),
        variant_line (Str (js ''e'')) (Num (Finite 1)) (Str (js ''list.variant_reference'')),
        variant_line (Str (js ''f'')) (Num (Finite 1))
          (metafield list_variant_reference (Arr [Null, Obj [], Num (Finite 0), Arr []]) Null),
        variant_line (Str (js ''g'')) Null
          (metafield list_variant_reference
             (Arr [Null, Str (variant_gid ''1''), Obj [(js ''id'', Null)]]) (Num (Finite 7)))]"

text \<open>A conforming cart whose one bundle lists an object with the number 42 as \<^verbatim>\<open>id\<close>.\<close>

definition number_id_cart :: jsval where
  "number_id_cart =
     cart_input
       [variant_line (Str (js ''line-9'')) (Num (Finite 1))
          (metafield list_variant_reference (Arr [Obj [(js ''id'', Num (Finite 42))]]) Null)]"

text \<open>
  A bundle that lists an object with an empty array as \<^verbatim>\<open>id\<close>, and a string without
  the prefix.
\<close>

definition stray_line :: jsval where
  "stray_line =
     variant_line (Str (js ''line-10'')) (Num (Finite 1))
       (metafield list_variant_reference
          (Arr [Obj [(js ''id'', Arr [])], Str (js ''not-a-gid'')]) Null)"

section \<open>Basic facts\<close>

lemma bind_res_simps [simp]:
  "bind_res (Inl e) f = Inl e"
  "bind_res (Inr v) f = f v"
  by (simp_all add: bind_res_def)

lemma bind_res_Inr_iff: "bind_res r f = Inr y \<longleftrightarrow> (\<exists>v. r = Inr v \<and> f v = Inr y)"
  by (cases r) simp_all

lemma try_catch_simps [simp]:
  "try_catch (Inl e) old = old"
  "try_catch (Inr v) old = v"
  by (simp_all add: try_catch_def)

lemma truthy_not_nullish: "truthy v \<Longrightarrow> \<not> nullish v"
  by (cases v) simp_all

lemma is_object_not_nullish: "is_object v \<Longrightarrow> \<not> nullish v"
  by (cases v) simp_all

lemma get_prop_simps:
  "nullish v \<Longrightarrow> get_prop v k = Inl TypeError"
  "\<not> nullish v \<Longrightarrow> get_prop v k = Inr (property v k)"
  by (simp_all add: get_prop_def)

lemma get_prop_Inr_iff: "get_prop v k = Inr x \<longleftrightarrow> \<not> nullish v \<and> x = property v k"
  by (auto simp: get_prop_def)

lemma map_res_pure: "map_res (\<lambda>x. Inr (g x)) xs = Inr (map g xs)"
  by (induction xs) simp_all

lemma resolve_raw_value: "\<not> nullish mf \<Longrightarrow> resolve_raw mf = Inr (raw_value mf)"
  by (simp add: resolve_raw_def raw_value_def get_prop_simps Let_def
      split: jsval.splits sum.splits)

lemma resolve_raw_Arr_truthy:
  assumes "resolve_raw mf = Inr raw"
  shows "\<not> nullish mf \<and> raw = raw_value mf"
proof -
  have "\<not> nullish mf"
    using assms by (auto simp: resolve_raw_def get_prop_def split: if_splits)
  with assms show ?thesis
    by (simp add: resolve_raw_value)
qed

lemma raw_value_not_Obj: "\<not> is_object mf \<Longrightarrow> raw_value mf = Undefined"
  by (cases mf) (simp_all add: raw_value_def)

lemma normalizeVariantIds_eq:
  "normalizeVariantIds mf = Inr (if truthy mf then ids_of_raw (raw_value mf) else [])"
  by (simp add: normalizeVariantIds_def resolve_raw_value truthy_not_nullish)

lemma resolve_raw_normalize:
  assumes "resolve_raw mf = Inr raw" and "raw \<noteq> Undefined"
  shows "normalizeVariantIds mf = Inr (ids_of_raw raw)"
proof -
  from resolve_raw_Arr_truthy [OF assms(1)] have raw: "raw = raw_value mf"
    by simp
  with assms(2) have "is_object mf"
    using raw_value_not_Obj by blast
  then have "truthy mf"
    by (cases mf) simp_all
  then show ?thesis
    by (simp add: normalizeVariantIds_eq raw)
qed

lemma startsWith_nonempty: "startsWith s p \<Longrightarrow> p \<noteq> [] \<Longrightarrow> s \<noteq> []"
  by (auto simp: startsWith_def)

lemma gid_nonempty: "js ''gid://'' \<noteq> []"
  by (simp add: js_def)

lemma pick_id_cases:
  "pick_id item =
     (if is_string item then item
      else if truthy (opt_chain item (js ''id'')) then opt_chain item (js ''id'')
      else if truthy (opt_chain item (js ''gid'')) then opt_chain item (js ''gid'')
      else Null)"
  by (simp add: pick_id_def or_else_def)

lemma ids_of_raw_truthy: "i \<in> set (ids_of_raw raw) \<Longrightarrow> truthy i"
  by (cases raw) (auto dest: startsWith_nonempty simp: gid_nonempty split: if_splits)

lemma ids_of_raw_falsy: "\<not> truthy raw \<Longrightarrow> ids_of_raw raw = []"
proof (cases raw)
  case (Str s)
  assume "\<not> truthy raw"
  with Str have "s = []" by simp
  with Str show ?thesis
    by (simp add: startsWith_def trim_def js_def)
qed simp_all

lemma loop_body_nullish: "nullish line \<Longrightarrow> loop_body ops line = Inl TypeError"
  by (simp add: loop_body_def get_prop_simps)

lemma loop_body_skip:
  assumes "\<not> nullish line" and "\<not> qualifies line"
  shows "loop_body ops line = Inr ops"
  using assms
  by (simp add: loop_body_def qualifies_def bundle_refs_def get_prop_simps
      truthy_not_nullish normalizeVariantIds_eq)

lemma loop_body_push:
  assumes "\<not> nullish line" and "qualifies line"
  shows "loop_body ops line = Inr (ops @ [expansion line])"
  using assms
  by (simp add: loop_body_def qualifies_def bundle_refs_def expansion_def get_prop_simps
      truthy_not_nullish normalizeVariantIds_eq map_res_pure)

lemma emitted_eq:
  "emitted line = (if \<not> nullish line \<and> qualifies line then [expansion line] else [])"
proof (cases "nullish line")
  case True
  then show ?thesis by (simp add: emitted_def loop_body_nullish)
next
  case False
  then show ?thesis
    by (cases "qualifies line") (simp_all add: emitted_def loop_body_skip loop_body_push)
qed

lemma loop_body_emitted: "\<not> nullish line \<Longrightarrow> loop_body ops line = Inr (ops @ emitted line)"
  by (simp add: emitted_eq loop_body_skip loop_body_push)

lemma loop_body_pushed:
  assumes "loop_body ops line = Inr (ops @ [op])"
  shows "\<not> nullish line \<and> qualifies line \<and> op = expansion line"
proof -
  have nn: "\<not> nullish line"
    using assms by (auto simp: loop_body_nullish)
  then have "ops @ emitted line = ops @ [op]"
    using assms by (simp add: loop_body_emitted)
  then have "emitted line = [op]"
    by simp
  with nn show ?thesis
    by (auto simp: emitted_eq split: if_splits)
qed

lemma for_lines_eq:
  "for_lines ls ops =
     (if list_ex nullish ls then Inl TypeError else Inr (ops @ concat (map emitted ls)))"
proof (induction ls arbitrary: ops)
  case Nil
  then show ?case by simp
next
  case (Cons l ls)
  show ?case
  proof (cases "nullish l")
    case True
    then show ?thesis by (simp add: loop_body_nullish)
  next
    case False
    then show ?thesis by (simp add: loop_body_emitted Cons.IH)
  qed
qed

lemma cartTransformRun_eq:
  "cartTransformRun input =
     bind_res (cart_lines input) (\<lambda>ls.
       if list_ex nullish ls then Inl TypeError
       else Inr \<lparr>operations = concat (map emitted ls)\<rparr>)"
  by (cases "cart_lines input") (simp_all add: cartTransformRun_def for_lines_eq)

lemma cart_lines_Inr:
  "cartTransformRun input = Inr res \<Longrightarrow>
     \<exists>ls. cart_lines input = Inr ls \<and> \<not> list_ex nullish ls
          \<and> res = \<lparr>operations = concat (map emitted ls)\<rparr>"
  by (auto simp: cartTransformRun_eq bind_res_Inr_iff split: if_splits)

lemma conforms_cart_lines:
  assumes "conforms_schema input"
  shows "\<exists>ls. cart_lines input = Inr ls \<and> list_all conforms_line ls"
proof -
  let ?cart = "property input (js ''cart'')"
  let ?lines = "property ?cart (js ''lines'')"
  from assms have i: "\<not> nullish input" and c: "\<not> nullish ?cart"
    by (simp_all add: conforms_schema_def is_object_not_nullish)
  then have eq: "cart_lines input = iterate (coalesce ?lines (Arr []))"
    by (simp add: cart_lines_def get_prop_simps)
  from assms have "?lines = Undefined \<or> ?lines = Null
      \<or> (\<exists>ls. ?lines = Arr ls \<and> list_all conforms_line ls)"
    by (auto simp: conforms_schema_def split: jsval.splits)
  then show ?thesis
    unfolding eq by (auto simp: coalesce_def)
qed

lemma conforms_line_emitted:
  assumes "conforms_line line" and "op \<in> set (emitted line)"
  shows "well_formed_operation op"
proof -
  from assms(2) have q: "qualifies line" and op: "op = expansion line"
    by (auto simp: emitted_eq split: if_splits)
  let ?q = "property line (js ''quantity'')"
  from assms(1) have "nullish ?q \<or> is_positive_integer ?q"
    by (simp add: conforms_line_def)
  then have qty: "is_positive_integer (coalesce ?q (Num (Finite 1)))"
    by (auto simp: coalesce_def)
  from assms(1) have lid: "is_string (property line (js ''id''))"
    by (simp add: conforms_line_def)
  from q have ne: "ids_of_raw (raw_value (bundle_refs line)) \<noteq> []"
    by (simp add: qualifies_def)
  show ?thesis
    using lid ne qty
    by (auto simp: well_formed_operation_def op expansion_def list_all_iff ids_of_raw_truthy)
qed

lemma emitted_examples:
  "emitted bundle_line = [bundle_operation]"
  "emitted plain_line = []"
  "emitted custom_line = []"
  "emitted single_line = [single_operation]"
  by code_simp+

section \<open>Claims\<close>

text \<open>
  Claim C1 as stated: with no parsed JSON value, a raw string that is not JSON is itself
  taken as an identifier, so that the raw string \<^verbatim>\<open>gid://shopify/ProductVariant/9\<close>
  resolves to the list of that one identifier. It does not: the string is not a JSON
  text, the exception is swallowed, \<^verbatim>\<open>raw\<close> stays \<^verbatim>\<open>null\<close> and the result is empty.
\<close>

theorem C1_counterexample:
  "JSON_parse (variant_gid ''9'') = Inl SyntaxError
   \<and> normalizeVariantIds (metafield list_variant_reference Null (Str (variant_gid ''9'')))
       = Inr []
   \<and> normalizeVariantIds (metafield list_variant_reference Null (Str (variant_gid ''9'')))
       \<noteq> Inr [Str (variant_gid ''9'')]"
  by code_simp

text \<open>
  Claim C1, amended. For a metafield whose parsed JSON value is falsy and whose raw
  value is a string, the raw string is parsed as JSON. When that fails the metafield
  resolves to no identifier at all. When it gives a string, that decoded string is the
  single identifier if it begins with \<^verbatim>\<open>gid://\<close>, and otherwise it is split at the
  commas, each piece trimmed, and the pieces beginning with \<^verbatim>\<open>gid://\<close> are kept.
\<close>

theorem C1_raw_string_fallback:
  assumes "get_prop mf (js ''jsonValue'') = Inr jv" and "\<not> truthy jv"
    and "get_prop mf (js ''value'') = Inr (Str s)"
  shows "(\<forall>e. JSON_parse s = Inl e \<longrightarrow> normalizeVariantIds mf = Inr [])
       \<and> (\<forall>t. JSON_parse s = Inr (Str t) \<longrightarrow>
             normalizeVariantIds mf =
               Inr (if startsWith t (js ''gid://'') then [Str t]
                    else map Str (filter (\<lambda>p. startsWith p (js ''gid://''))
                                    (map trim (split t 0x2C)))))"
proof -
  from assms(1) have jv: "property mf (js ''jsonValue'') = jv"
    by (simp add: get_prop_Inr_iff)
  from assms(3) have v: "property mf (js ''value'') = Str s"
    by (simp add: get_prop_Inr_iff)
  then have "is_object mf"
    by (cases mf) simp_all
  then have mf: "truthy mf"
    by (cases mf) simp_all
  have raw: "raw_value mf = (case JSON_parse s of Inl _ \<Rightarrow> jv | Inr r \<Rightarrow> r)"
    using jv v assms(2) by (simp add: raw_value_def)
  have fail: "normalizeVariantIds mf = Inr []" if "JSON_parse s = Inl e" for e
    using that mf raw assms(2) by (simp add: normalizeVariantIds_eq ids_of_raw_falsy)
  have str: "normalizeVariantIds mf =
      Inr (if startsWith t (js ''gid://'') then [Str t]
           else map Str (filter (\<lambda>p. startsWith p (js ''gid://'')) (map trim (split t 0x2C))))"
    if "JSON_parse s = Inr (Str t)" for t
    using that mf raw by (simp add: normalizeVariantIds_eq)
  from fail str show ?thesis
    by blast
qed

text \<open>
  C1 on four raw values: the bare identifier of variant 9 gives nothing, its JSON
  encoding gives variant 9, the JSON encoding of a comma-separated string that
  begins with another piece gives variants 1 and 2, and the JSON encoding of a
  comma-separated string that begins with \<^verbatim>\<open>gid://\<close> gives that whole string.
\<close>

theorem C1_witness:
  "normalizeVariantIds (metafield list_variant_reference Null (Str (variant_gid ''9''))) = Inr []
   \<and> normalizeVariantIds
        (metafield list_variant_reference Null (Str (json_string (variant_gid ''9''))))
       = Inr [Str (variant_gid ''9'')]
   \<and> normalizeVariantIds
        (metafield list_variant_reference Null
           (Str (json_string
              (js ''not-a-gid, gid://shopify/ProductVariant/1 ,gid://shopify/ProductVariant/2''))))
       = Inr [Str (variant_gid ''1''), Str (variant_gid ''2'')]
   \<and> normalizeVariantIds
        (metafield list_variant_reference Null
           (Str (json_string
              (js ''gid://shopify/ProductVariant/1, not-a-gid, gid://shopify/ProductVariant/2''))))
       = Inr [Str (js ''gid://shopify/ProductVariant/1, not-a-gid, gid://shopify/ProductVariant/2'')]"
proof -
  let ?t = "js ''not-a-gid, gid://shopify/ProductVariant/1 ,gid://shopify/ProductVariant/2''"
  let ?u = "js ''gid://shopify/ProductVariant/1, not-a-gid, gid://shopify/ProductVariant/2''"
  have jv: "get_prop (metafield list_variant_reference Null (Str v)) (js ''jsonValue'') = Inr Null"
    for v by code_simp
  have val: "get_prop (metafield list_variant_reference Null (Str v)) (js ''value'') = Inr (Str v)"
    for v by code_simp
  have f: "\<not> truthy Null"
    by simp
  have p1: "JSON_parse (variant_gid ''9'') = Inl SyntaxError"
    by code_simp
  have p2: "JSON_parse (json_string (variant_gid ''9'')) = Inr (Str (variant_gid ''9''))"
    by code_simp
  have p3: "JSON_parse (json_string ?t) = Inr (Str ?t)"
    by code_simp
  have r2: "(if startsWith (variant_gid ''9'') (js ''gid://'') then [Str (variant_gid ''9'')]
             else map Str (filter (\<lambda>p. startsWith p (js ''gid://''))
                             (map trim (split (variant_gid ''9'') 0x2C))))
      = [Str (variant_gid ''9'')]"
    by code_simp
  have r3: "(if startsWith ?t (js ''gid://'') then [Str ?t]
             else map Str (filter (\<lambda>p. startsWith p (js ''gid://''))
                             (map trim (split ?t 0x2C))))
      = [Str (variant_gid ''1''), Str (variant_gid ''2'')]"
    by code_simp
  from C1_raw_string_fallback [OF jv f val, of "variant_gid ''9''"] p1
  have a: "normalizeVariantIds (metafield list_variant_reference Null (Str (variant_gid ''9'')))
      = Inr []"
    by blast
  from C1_raw_string_fallback [OF jv f val, of "json_string (variant_gid ''9'')"] p2
  have b: "normalizeVariantIds
        (metafield list_variant_reference Null (Str (json_string (variant_gid ''9''))))
       = Inr [Str (variant_gid ''9'')]"
    by (simp only: r2)
  from C1_raw_string_fallback [OF jv f val, of "json_string ?t"] p3
  have c: "normalizeVariantIds (metafield list_variant_reference Null (Str (json_string ?t)))
       = Inr [Str (variant_gid ''1''), Str (variant_gid ''2'')]"
    by (simp only: r3)
  have p4: "JSON_parse (json_string ?u) = Inr (Str ?u)"
    by code_simp
  have r4: "(if startsWith ?u (js ''gid://'') then [Str ?u]
             else map Str (filter (\<lambda>p. startsWith p (js ''gid://''))
                             (map trim (split ?u 0x2C))))
      = [Str ?u]"
    by code_simp
  from C1_raw_string_fallback [OF jv f val, of "json_string ?u"] p4
  have d: "normalizeVariantIds (metafield list_variant_reference Null (Str (json_string ?u)))
       = Inr [Str ?u]"
    by (simp only: r4)
  from a b c d show ?thesis
    by blast
qed

text \<open>
  Claim C2 as stated: on a conforming snapshot every anomaly in a metafield ends in
  the line being skipped or the identifier being dropped. It fails on an array entry
  whose \<^verbatim>\<open>id\<close> is the number 42: the cart conforms, the line is not skipped and the
  entry is not dropped, it becomes the \<^verbatim>\<open>merchandiseId\<close> of the operation.
\<close>

theorem C2_counterexample:
  "conforms_schema number_id_cart
   \<and> cartTransformRun number_id_cart
       = Inr \<lparr>operations =
               [\<lparr>lineExpand =
                   \<lparr>cartLineId = Str (js ''line-9''),
                    expandedCartItems =
                      [\<lparr>merchandiseId = Num (Finite 42), quantity = Num (Finite 1)\<rparr>]\<rparr>\<rparr>]\<rparr>
   \<and> \<not> is_gid (Num (Finite 42))"
  by code_simp

text \<open>
  Claim C2, amended. Nothing in a metafield can make the transform throw or leave an
  operation half built: \<^verbatim>\<open>normalizeVariantIds\<close> returns a list for every value
  whatsoever, and on every snapshot that conforms to the input schema
  \<^verbatim>\<open>cartTransformRun\<close> returns a result all of whose operations are complete, with a
  string line identifier and at least one item, each item with a truthy
  \<^verbatim>\<open>merchandiseId\<close> and a positive integer quantity.
\<close>

theorem C2_never_throws:
  "(\<exists>ids. normalizeVariantIds mf = Inr ids)
   \<and> (conforms_schema input \<longrightarrow>
        (\<exists>res. cartTransformRun input = Inr res \<and> well_formed res))"
proof -
  have a: "\<exists>ids. normalizeVariantIds mf = Inr ids"
    by (simp add: normalizeVariantIds_eq)
  have b: "\<exists>res. cartTransformRun input = Inr res \<and> well_formed res" if "conforms_schema input"
  proof -
    from conforms_cart_lines [OF that] obtain ls where ls: "cart_lines input = Inr ls"
      and ok: "list_all conforms_line ls"
      by blast
    from ok have nn: "\<not> list_ex nullish ls"
      by (auto simp: list_all_iff list_ex_iff conforms_line_def is_object_not_nullish)
    from ls nn have run: "cartTransformRun input = Inr \<lparr>operations = concat (map emitted ls)\<rparr>"
      by (simp add: cartTransformRun_eq)
    from ok have "well_formed \<lparr>operations = concat (map emitted ls)\<rparr>"
      by (auto simp: well_formed_def list_all_iff dest: conforms_line_emitted)
    with run show ?thesis
      by blast
  qed
  from a b show ?thesis
    by blast
qed

text \<open>
  C2 on \<open>malformed_cart\<close>: it conforms, and the run returns the one operation of the
  last line.
\<close>

theorem C2_witness:
  "conforms_schema malformed_cart
   \<and> cartTransformRun malformed_cart
       = Inr \<lparr>operations =
               [\<lparr>lineExpand =
                   \<lparr>cartLineId = Str (js ''g''),
                    expandedCartItems =
                      [\<lparr>merchandiseId = Str (variant_gid ''1''),
                        quantity = Num (Finite 1)\<rparr>]\<rparr>\<rparr>]\<rparr>
   \<and> (\<exists>res. cartTransformRun malformed_cart = Inr res \<and> well_formed res)"
proof -
  have c: "conforms_schema malformed_cart"
    by code_simp
  have r: "cartTransformRun malformed_cart
       = Inr \<lparr>operations =
               [\<lparr>lineExpand =
                   \<lparr>cartLineId = Str (js ''g''),
                    expandedCartItems =
                      [\<lparr>merchandiseId = Str (variant_gid ''1''),
                        quantity = Num (Finite 1)\<rparr>]\<rparr>\<rparr>]\<rparr>"
    by code_simp
  from C2_never_throws [of _ malformed_cart] c r show ?thesis
    by blast
qed

text \<open>
  Claim C3. A product variant line whose metafield has type
  \<^verbatim>\<open>list.variant_reference\<close>, parsed JSON value
  \<^verbatim>\<open>["gid://shopify/ProductVariant/1", "gid://shopify/ProductVariant/2"]\<close> and quantity 3
  gives exactly one \<^verbatim>\<open>lineExpand\<close> operation, with the line's identifier and two
  expanded items of quantity 3 each: the loop body appends that operation and nothing
  else, alone in a cart it is the whole result, and among other lines it stands at the
  line's place.
\<close>

theorem C3_two_component_bundle:
  assumes "property (property line (js ''merchandise'')) (js ''__typename'')
             = Str (js ''ProductVariant'')"
    and "property (bundle_refs line) (js ''type'') = Str (js ''list.variant_reference'')"
    and "property (bundle_refs line) (js ''jsonValue'') = Arr [Str g1, Str g2]"
    and "g1 = variant_gid ''1''" and "g2 = variant_gid ''2''"
    and "property line (js ''quantity'') = Num (Finite 3)"
    and "op = \<lparr>lineExpand =
                 \<lparr>cartLineId = property line (js ''id''),
                  expandedCartItems =
                    [\<lparr>merchandiseId = Str g1, quantity = Num (Finite 3)\<rparr>,
                     \<lparr>merchandiseId = Str g2, quantity = Num (Finite 3)\<rparr>]\<rparr>\<rparr>"
  shows "loop_body ops line = Inr (ops @ [op])
         \<and> cartTransformRun (cart_input [line]) = Inr \<lparr>operations = [op]\<rparr>
         \<and> (\<not> list_ex nullish (pre @ post) \<longrightarrow>
              cartTransformRun (cart_input (pre @ line # post))
                = Inr \<lparr>operations = concat (map emitted pre) @ op # concat (map emitted post)\<rparr>)"
proof -
  from assms(1) have obj: "\<not> nullish line"
    by (cases line) auto
  from assms(1) have merch: "truthy (property line (js ''merchandise''))"
    by (cases "property line (js ''merchandise'')") auto
  from assms(2) have mf: "truthy (bundle_refs line)"
    by (cases "bundle_refs line") auto
  have g: "g1 \<noteq> []" "g2 \<noteq> []"
    using assms(4,5) by (simp_all add: variant_gid_def js_def)
  from assms(3) have raw: "raw_value (bundle_refs line) = Arr [Str g1, Str g2]"
    by (simp add: raw_value_def)
  then have ids: "ids_of_raw (raw_value (bundle_refs line)) = [Str g1, Str g2]"
    using g by (simp add: pick_id_cases)
  with merch mf assms(1,2) have q: "qualifies line"
    by (simp add: qualifies_def)
  from ids assms(6,7) have e: "expansion line = op"
    by (simp add: expansion_def coalesce_def)
  with obj q have em: "emitted line = [op]"
    by (simp add: emitted_eq)
  have lines: "cart_lines (cart_input ls) = Inr ls" for ls
    by (simp add: cart_lines_def cart_input_def get_prop_simps coalesce_def)
  from obj q e have "loop_body ops line = Inr (ops @ [op])"
    by (simp add: loop_body_push)
  moreover from obj em have "cartTransformRun (cart_input [line]) = Inr \<lparr>operations = [op]\<rparr>"
    by (simp add: cartTransformRun_eq lines)
  moreover from obj em have "\<not> list_ex nullish (pre @ post) \<longrightarrow>
      cartTransformRun (cart_input (pre @ line # post))
        = Inr \<lparr>operations = concat (map emitted pre) @ op # concat (map emitted post)\<rparr>"
    by (simp add: cartTransformRun_eq lines)
  ultimately show ?thesis
    by simp
qed

text \<open>C3 on the example bundle, alone and as the third of four lines.\<close>

theorem C3_witness:
  "loop_body [single_operation] bundle_line = Inr ([single_operation] @ [bundle_operation])
   \<and> cartTransformRun (cart_input [bundle_line]) = Inr \<lparr>operations = [bundle_operation]\<rparr>
   \<and> cartTransformRun (cart_input ([plain_line, single_line] @ bundle_line # [custom_line]))
       = Inr \<lparr>operations = [single_operation, bundle_operation]\<rparr>"
proof -
  have a: "property (property bundle_line (js ''merchandise'')) (js ''__typename'')
             = Str (js ''ProductVariant'')"
    by code_simp
  have b: "property (bundle_refs bundle_line) (js ''type'') = Str (js ''list.variant_reference'')"
    by code_simp
  have c: "property (bundle_refs bundle_line) (js ''jsonValue'')
      = Arr [Str (variant_gid ''1''), Str (variant_gid ''2'')]"
    by code_simp
  have d: "property bundle_line (js ''quantity'') = Num (Finite 3)"
    by code_simp
  have e: "bundle_operation = \<lparr>lineExpand =
                 \<lparr>cartLineId = property bundle_line (js ''id''),
                  expandedCartItems =
                    [\<lparr>merchandiseId = Str (variant_gid ''1''), quantity = Num (Finite 3)\<rparr>,
                     \<lparr>merchandiseId = Str (variant_gid ''2''), quantity = Num (Finite 3)\<rparr>]\<rparr>\<rparr>"
    by code_simp
  have f: "\<not> list_ex nullish ([plain_line, single_line] @ [custom_line])"
    by code_simp
  from C3_two_component_bundle [OF a b c refl refl d e,
      of "[single_operation]" "[plain_line, single_line]" "[custom_line]"] f
  show ?thesis
    by (simp add: emitted_examples)
qed

text \<open>
  Claim C4 as stated: each expanded item carries the line's quantity when that is a
  positive integer, and 1 otherwise. It fails on a quantity of 0, which the items
  carry unchanged where the claim prescribes 1.
\<close>

theorem C4_counterexample:
  "cartTransformRun (cart_input [zero_line])
     = Inr \<lparr>operations =
             [\<lparr>lineExpand =
                 \<lparr>cartLineId = Str (js ''line-7''),
                  expandedCartItems =
                    [\<lparr>merchandiseId = Str (variant_gid ''1''),
                      quantity = Num (Finite 0)\<rparr>]\<rparr>\<rparr>]\<rparr>
   \<and> property zero_line (js ''quantity'') = Num (Finite 0)
   \<and> claimed_quantity (Num (Finite 0)) = Num (Finite 1)
   \<and> Num (Finite 0) \<noteq> claimed_quantity (Num (Finite 0))"
  by code_simp

text \<open>
  Claim C4, amended. When the loop body pushes an operation for a line, the operation
  has at least one item and every item carries the line's quantity whenever that is
  neither \<^verbatim>\<open>undefined\<close> nor \<^verbatim>\<open>null\<close>, whatever its value, and 1 otherwise; so a
  line with no quantity gives items of quantity 1.
\<close>

theorem C4_quantity_of_expanded_items:
  assumes "loop_body ops line = Inr (ops @ [op])"
  shows "expandedCartItems (lineExpand op) \<noteq> []
         \<and> (\<forall>item \<in> set (expandedCartItems (lineExpand op)).
               quantity item =
                 (if property line (js ''quantity'') = Undefined
                     \<or> property line (js ''quantity'') = Null
                  then Num (Finite 1)
                  else property line (js ''quantity'')))"
proof -
  from loop_body_pushed [OF assms] have q: "qualifies line" and op: "op = expansion line"
    by simp_all
  have n: "nullish v \<longleftrightarrow> v = Undefined \<or> v = Null" for v
    by (cases v) simp_all
  from q have "expandedCartItems (lineExpand op) \<noteq> []"
    by (simp add: op expansion_def qualifies_def)
  moreover have "\<forall>item \<in> set (expandedCartItems (lineExpand op)).
      quantity item =
        (if property line (js ''quantity'') = Undefined \<or> property line (js ''quantity'') = Null
         then Num (Finite 1) else property line (js ''quantity''))"
    by (auto simp: op expansion_def coalesce_def n)
  ultimately show ?thesis
    by simp
qed

text \<open>C4 on a line with no quantity and on a line with quantity 3.\<close>

theorem C4_witness:
  "quantity \<lparr>merchandiseId = Str (variant_gid ''9''), quantity = Num (Finite 1)\<rparr> = Num (Finite 1)
   \<and> quantity \<lparr>merchandiseId = Str (variant_gid ''2''), quantity = Num (Finite 3)\<rparr> = Num (Finite 3)
   \<and> loop_body [] single_line = Inr [single_operation]
   \<and> loop_body [] bundle_line = Inr [bundle_operation]
   \<and> property single_line (js ''quantity'') = Null
   \<and> property bundle_line (js ''quantity'') = Num (Finite 3)"
proof -
  have a: "loop_body [] single_line = Inr ([] @ [single_operation])"
    by code_simp
  have b: "loop_body [] bundle_line = Inr ([] @ [bundle_operation])"
    by code_simp
  have qa: "property single_line (js ''quantity'') = Null"
    by code_simp
  have qb: "property bundle_line (js ''quantity'') = Num (Finite 3)"
    by code_simp
  have ia: "\<lparr>merchandiseId = Str (variant_gid ''9''), quantity = Num (Finite 1)\<rparr>
      \<in> set (expandedCartItems (lineExpand single_operation))"
    by (simp add: single_operation_def)
  have ib: "\<lparr>merchandiseId = Str (variant_gid ''2''), quantity = Num (Finite 3)\<rparr>
      \<in> set (expandedCartItems (lineExpand bundle_operation))"
    by (simp add: bundle_operation_def)
  from C4_quantity_of_expanded_items [OF a] C4_quantity_of_expanded_items [OF b] a b qa qb ia ib
  show ?thesis
    by simp
qed

text \<open>
  Claim C5. A line whose metafield type is anything but the exact string
  \<^verbatim>\<open>list.variant_reference\<close> pushes no operation, whatever the metafield holds: the
  loop body returns the operations it was given, and the loop runs as if the line were
  not in the cart.
\<close>

theorem C5_other_type_no_operation:
  assumes "\<not> nullish line"
    and "property (bundle_refs line) (js ''type'') \<noteq> Str (js ''list.variant_reference'')"
  shows "loop_body ops line = Inr ops
         \<and> for_lines (pre @ line # post) ops = for_lines (pre @ post) ops"
proof -
  from assms(2) have nq: "\<not> qualifies line"
    by (simp add: qualifies_def)
  with assms(1) have skip: "loop_body ops line = Inr ops"
    by (rule loop_body_skip)
  from nq have "emitted line = []"
    by (simp add: emitted_eq)
  with assms(1) have "for_lines (pre @ line # post) ops = for_lines (pre @ post) ops"
    by (simp add: for_lines_eq)
  with skip show ?thesis
    by simp
qed

text \<open>C5 on \<open>suffixed_type_line\<close>, between two bundles.\<close>

theorem C5_witness:
  "loop_body [bundle_operation] suffixed_type_line = Inr [bundle_operation]
   \<and> for_lines ([bundle_line] @ suffixed_type_line # [single_line]) []
       = for_lines ([bundle_line] @ [single_line]) []
   \<and> cartTransformRun (cart_input [bundle_line, suffixed_type_line, single_line])
       = Inr \<lparr>operations = [bundle_operation, single_operation]\<rparr>"
proof -
  have a: "\<not> nullish suffixed_type_line"
    by code_simp
  have b: "property (bundle_refs suffixed_type_line) (js ''type'')
      \<noteq> Str (js ''list.variant_reference'')"
    by code_simp
  have c: "cartTransformRun (cart_input [bundle_line, suffixed_type_line, single_line])
       = Inr \<lparr>operations = [bundle_operation, single_operation]\<rparr>"
    by code_simp
  from C5_other_type_no_operation [OF a b, of "[bundle_operation]" "[bundle_line]" "[single_line]"]
    C5_other_type_no_operation [OF a b, of "[]" "[bundle_line]" "[single_line]"] c
  show ?thesis
    by simp
qed

text \<open>
  Claim C6 as stated: a non-string element contributes its \<^verbatim>\<open>id\<close> field, or its
  \<^verbatim>\<open>gid\<close> field when the \<^verbatim>\<open>id\<close> field is absent. It fails on an element whose
  \<^verbatim>\<open>id\<close> is there and empty: the claim's rule takes the empty \<^verbatim>\<open>id\<close> and then
  drops it, the code falls through to the \<^verbatim>\<open>gid\<close> and keeps it.
\<close>

theorem C6_counterexample:
  "normalizeVariantIds (metafield list_variant_reference (Arr [empty_id_item]) Null)
     = Inr [Str (variant_gid ''2'')]
   \<and> filter truthy (map claimed_pick [empty_id_item]) = []"
  by code_simp

text \<open>
  Claim C6, amended. When the resolved raw value is an array, the identifiers are, in
  array order, what each element contributes: a string element itself unless it is
  empty; a non-string element its \<^verbatim>\<open>id\<close> field when that is truthy, otherwise its
  \<^verbatim>\<open>gid\<close> field when that is truthy, otherwise nothing. The claim's own rule gives
  the same list whenever no element has an \<^verbatim>\<open>id\<close> that is present and falsy.
\<close>

theorem C6_array_elements:
  assumes "resolve_raw mf = Inr (Arr xs)"
  shows "normalizeVariantIds mf =
           Inr (concat (map (\<lambda>item.
                  if is_string item then (if item = Str [] then [] else [item])
                  else if truthy (opt_chain item (js ''id'')) then [opt_chain item (js ''id'')]
                  else if truthy (opt_chain item (js ''gid'')) then [opt_chain item (js ''gid'')]
                  else []) xs))
         \<and> ((\<forall>item \<in> set xs. is_string item \<or> nullish (opt_chain item (js ''id''))
                                \<or> truthy (opt_chain item (js ''id'')))
              \<longrightarrow> normalizeVariantIds mf = Inr (filter truthy (map claimed_pick xs)))"
proof -
  let ?f = "\<lambda>item.
      if is_string item then (if item = Str [] then [] else [item])
      else if truthy (opt_chain item (js ''id'')) then [opt_chain item (js ''id'')]
      else if truthy (opt_chain item (js ''gid'')) then [opt_chain item (js ''gid'')]
      else []"
  have norm: "normalizeVariantIds mf = Inr (filter truthy (map pick_id xs))"
    using resolve_raw_normalize [OF assms] by simp
  have str: "is_string item \<Longrightarrow> truthy item \<longleftrightarrow> item \<noteq> Str []" for item
    by (cases item) simp_all
  have step: "filter truthy [pick_id item] = ?f item" for item
    by (simp add: pick_id_cases str)
  have flat: "filter truthy (map pick_id ys) = concat (map ?f ys)" for ys
  proof (induction ys)
    case Nil
    then show ?case by simp
  next
    case (Cons y ys)
    have "filter truthy (map pick_id (y # ys)) = filter truthy [pick_id y] @ filter truthy (map pick_id ys)"
      by simp
    also have "\<dots> = ?f y @ concat (map ?f ys)"
      by (simp only: step Cons.IH)
    finally show ?case
      by simp
  qed
  have agree: "filter truthy (map pick_id ys) = filter truthy (map claimed_pick ys)"
    if "\<forall>item \<in> set ys. is_string item \<or> nullish (opt_chain item (js ''id''))
                             \<or> truthy (opt_chain item (js ''id''))" for ys
    using that
  proof (induction ys)
    case Nil
    then show ?case by simp
  next
    case (Cons y ys)
    have nt: "nullish v \<Longrightarrow> \<not> truthy v" for v
      by (cases v) simp_all
    from Cons.prems have "is_string y \<or> nullish (opt_chain y (js ''id''))
        \<or> truthy (opt_chain y (js ''id''))"
      by simp
    then have one: "filter truthy [pick_id y] = filter truthy [claimed_pick y]"
      by (auto simp: pick_id_cases claimed_pick_def nt dest: truthy_not_nullish)
    have rest: "filter truthy (map pick_id ys) = filter truthy (map claimed_pick ys)"
      using Cons by simp
    have "filter truthy (map pick_id (y # ys))
        = filter truthy [pick_id y] @ filter truthy (map pick_id ys)"
      by simp
    also have "\<dots> = filter truthy [claimed_pick y] @ filter truthy (map claimed_pick ys)"
      by (simp only: one rest)
    also have "\<dots> = filter truthy (map claimed_pick (y # ys))"
      by simp
    finally show ?case .
  qed
  from norm flat agree show ?thesis
    by simp
qed

text \<open>C6 on \<open>mixed_items\<close>: variants 1 to 4 in order, by the code and by the claim's rule.\<close>

theorem C6_witness:
  "normalizeVariantIds (metafield list_variant_reference (Arr mixed_items) Null)
     = Inr [Str (variant_gid ''1''), Str (variant_gid ''2''), Str (variant_gid ''3''),
            Str (variant_gid ''4'')]
   \<and> filter truthy (map claimed_pick mixed_items)
     = [Str (variant_gid ''1''), Str (variant_gid ''2''), Str (variant_gid ''3''),
        Str (variant_gid ''4'')]"
proof -
  have raw: "resolve_raw (metafield list_variant_reference (Arr mixed_items) Null)
      = Inr (Arr mixed_items)"
    by code_simp
  have ok: "\<forall>item \<in> set mixed_items. is_string item \<or> nullish (opt_chain item (js ''id''))
                                \<or> truthy (opt_chain item (js ''id''))"
    by code_simp
  have val: "filter truthy (map claimed_pick mixed_items)
     = [Str (variant_gid ''1''), Str (variant_gid ''2''), Str (variant_gid ''3''),
        Str (variant_gid ''4'')]"
    by code_simp
  from C6_array_elements [OF raw] ok
  have "normalizeVariantIds (metafield list_variant_reference (Arr mixed_items) Null)
      = Inr (filter truthy (map claimed_pick mixed_items))"
    by blast
  with val show ?thesis
    by simp
qed

text \<open>
  Claim C7. A cart with no lines, and a cart none of whose lines has a product variant
  as merchandise, gives the result with no operations.
\<close>

theorem C7_no_variant_lines:
  assumes "cart_lines input = Inr ls"
    and "\<forall>l \<in> set ls. \<not> nullish l \<and>
           property (property l (js ''merchandise'')) (js ''__typename'')
             \<noteq> Str (js ''ProductVariant'')"
  shows "cartTransformRun input = Inr NO_CHANGES"
proof -
  from assms(2) have "\<not> list_ex nullish ls"
    by (auto simp: list_ex_iff)
  moreover from assms(2) have "concat (map emitted ls) = []"
    by (auto simp: emitted_eq qualifies_def)
  ultimately show ?thesis
    using assms(1) by (simp add: cartTransformRun_eq NO_CHANGES_def)
qed

text \<open>C7 on a cart without \<^verbatim>\<open>lines\<close>, with an empty list, and with two custom products.\<close>

theorem C7_witness:
  "cartTransformRun (Obj [(js ''cart'', Obj [])]) = Inr NO_CHANGES
   \<and> cartTransformRun (cart_input []) = Inr NO_CHANGES
   \<and> cartTransformRun (cart_input [custom_line, custom_line]) = Inr NO_CHANGES"
proof -
  have a: "cart_lines (Obj [(js ''cart'', Obj [])]) = Inr []"
    by code_simp
  have b: "cart_lines (cart_input []) = Inr []"
    by code_simp
  have c: "cart_lines (cart_input [custom_line, custom_line]) = Inr [custom_line, custom_line]"
    by code_simp
  have d: "\<not> nullish custom_line \<and>
      property (property custom_line (js ''merchandise'')) (js ''__typename'')
        \<noteq> Str (js ''ProductVariant'')"
    by code_simp
  show ?thesis
    using C7_no_variant_lines [OF a] C7_no_variant_lines [OF b] C7_no_variant_lines [OF c] d
    by simp
qed

text \<open>
  Claim C8. The operations come out in the order of the lines they come from: when
  \<^verbatim>\<open>cartTransformRun\<close> returns, its operations are, line after line in cart order,
  what the loop body pushes for each line on its own, which is nothing or one
  operation carrying that line's identifier.
\<close>

theorem C8_operations_in_line_order:
  assumes "cartTransformRun input = Inr res"
  shows "\<exists>ls. cart_lines input = Inr ls
           \<and> operations res = concat (map emitted ls)
           \<and> (\<forall>l \<in> set ls.
                 emitted l = [] \<or>
                 (\<exists>items. emitted l =
                    [\<lparr>lineExpand = \<lparr>cartLineId = property l (js ''id''),
                                     expandedCartItems = items\<rparr>\<rparr>]))
           \<and> map (\<lambda>op. cartLineId (lineExpand op)) (operations res)
               = map (\<lambda>l. property l (js ''id'')) (filter (\<lambda>l. emitted l \<noteq> []) ls)"
proof -
  from cart_lines_Inr [OF assms] obtain ls where ls: "cart_lines input = Inr ls"
    and res: "res = \<lparr>operations = concat (map emitted ls)\<rparr>"
    by blast
  have one: "emitted l = [] \<or>
        (\<exists>items. emitted l =
           [\<lparr>lineExpand = \<lparr>cartLineId = property l (js ''id''),
                            expandedCartItems = items\<rparr>\<rparr>])" for l
    by (simp add: emitted_eq expansion_def)
  have ids: "map (\<lambda>op. cartLineId (lineExpand op)) (concat (map emitted xs))
      = map (\<lambda>l. property l (js ''id'')) (filter (\<lambda>l. emitted l \<noteq> []) xs)" for xs
    by (induction xs) (auto simp: emitted_eq expansion_def)
  from ls res one ids show ?thesis
    by auto
qed

text \<open>C8 on a cart of four lines, of which the second and the fourth are bundles.\<close>

theorem C8_witness:
  "cartTransformRun (cart_input [plain_line, single_line, custom_line, bundle_line])
     = Inr \<lparr>operations = [single_operation, bundle_operation]\<rparr>
   \<and> [single_operation, bundle_operation]
       = concat (map emitted [plain_line, single_line, custom_line, bundle_line])
   \<and> map (\<lambda>op. cartLineId (lineExpand op)) [single_operation, bundle_operation]
       = [Str (js ''line-4''), Str (js ''line-1'')]"
proof -
  let ?ls = "[plain_line, single_line, custom_line, bundle_line]"
  have run: "cartTransformRun (cart_input ?ls)
      = Inr \<lparr>operations = [single_operation, bundle_operation]\<rparr>"
    by code_simp
  have ls: "cart_lines (cart_input ?ls) = Inr ?ls"
    by code_simp
  from C8_operations_in_line_order [OF run] ls
  have "[single_operation, bundle_operation] = concat (map emitted ?ls)"
    by simp
  moreover have "map (\<lambda>op. cartLineId (lineExpand op)) [single_operation, bundle_operation]
       = [Str (js ''line-4''), Str (js ''line-1'')]"
    by (simp add: single_operation_def bundle_operation_def)
  ultimately show ?thesis
    using run by simp
qed

text \<open>
  Claim C9 as stated: no identifier in the output is empty, because malformed and
  empty entries of the metafield are filtered out and never reach an operation. It
  fails on an array with an entry whose \<^verbatim>\<open>id\<close> is an empty array and with a string
  that lacks the prefix: both are truthy, and both reach the operation.
\<close>

theorem C9_counterexample:
  "cartTransformRun (cart_input [stray_line])
     = Inr \<lparr>operations =
             [\<lparr>lineExpand =
                 \<lparr>cartLineId = Str (js ''line-10''),
                  expandedCartItems =
                    [\<lparr>merchandiseId = Arr [], quantity = Num (Finite 1)\<rparr>,
                     \<lparr>merchandiseId = Str (js ''not-a-gid''), quantity = Num (Finite 1)\<rparr>]\<rparr>\<rparr>]\<rparr>
   \<and> \<not> is_gid (Arr []) \<and> \<not> is_gid (Str (js ''not-a-gid''))"
  by code_simp

text \<open>
  Claim C9, amended. Whenever \<^verbatim>\<open>cartTransformRun\<close> returns, the \<^verbatim>\<open>merchandiseId\<close>
  of every expanded item of every operation is truthy, so it is neither \<^verbatim>\<open>null\<close>
  nor \<^verbatim>\<open>undefined\<close> nor the empty string: the falsy entries of the metafield were
  filtered out.
\<close>

theorem C9_merchandiseId_never_empty:
  assumes "cartTransformRun input = Inr res"
    and "op \<in> set (operations res)"
    and "item \<in> set (expandedCartItems (lineExpand op))"
  shows "truthy (merchandiseId item) \<and> merchandiseId item \<noteq> Null
         \<and> merchandiseId item \<noteq> Undefined \<and> merchandiseId item \<noteq> Str []"
proof -
  from cart_lines_Inr [OF assms(1)] obtain ls where
    res: "res = \<lparr>operations = concat (map emitted ls)\<rparr>"
    by blast
  from assms(2) res obtain l where "l \<in> set ls" and "op \<in> set (emitted l)"
    by auto
  then have op: "op = expansion l"
    by (auto simp: emitted_eq split: if_splits)
  with assms(3) have "merchandiseId item \<in> set (ids_of_raw (raw_value (bundle_refs l)))"
    by (auto simp: expansion_def)
  then have "truthy (merchandiseId item)"
    by (rule ids_of_raw_truthy)
  then show ?thesis
    by (cases "merchandiseId item") simp_all
qed

text \<open>C9 on \<open>padded_line\<close>: the four empty entries are gone, variants 1 and 2 remain.\<close>

theorem C9_witness:
  "cartTransformRun (cart_input [padded_line]) = Inr \<lparr>operations = [padded_operation]\<rparr>
   \<and> truthy (Str (variant_gid ''2'')) \<and> Str (variant_gid ''2'') \<noteq> Null
   \<and> Str (variant_gid ''2'') \<noteq> Undefined \<and> Str (variant_gid ''2'') \<noteq> Str []"
proof -
  have run: "cartTransformRun (cart_input [padded_line]) = Inr \<lparr>operations = [padded_operation]\<rparr>"
    by code_simp
  have op: "padded_operation \<in> set (operations \<lparr>operations = [padded_operation]\<rparr>)"
    by simp
  have item: "\<lparr>merchandiseId = Str (variant_gid ''2''), quantity = Num (Finite 2)\<rparr>
      \<in> set (expandedCartItems (lineExpand padded_operation))"
    by (simp add: padded_operation_def)
  from C9_merchandiseId_never_empty [OF run op item] run show ?thesis
    by simp
qed

text \<open>
  Claim C10. In the array branch nothing checks the \<^verbatim>\<open>gid://\<close> prefix: every non-empty
  string element is among the identifiers, and so is every truthy \<^verbatim>\<open>id\<close> field of a
  non-string element, and every truthy \<^verbatim>\<open>gid\<close> field when the \<^verbatim>\<open>id\<close> is falsy,
  of whatever type. Only in the string branch does every identifier begin with
  \<^verbatim>\<open>gid://\<close>.
\<close>

theorem C10_array_branch_unvalidated:
  assumes "resolve_raw mf = Inr raw" and "normalizeVariantIds mf = Inr ids"
  shows "(\<forall>xs. raw = Arr xs \<longrightarrow>
            (\<forall>s. s \<noteq> [] \<and> Str s \<in> set xs \<longrightarrow> Str s \<in> set ids)
          \<and> (\<forall>item v. item \<in> set xs \<and> \<not> is_string item \<and> truthy v
                 \<and> (opt_chain item (js ''id'') = v
                     \<or> (\<not> truthy (opt_chain item (js ''id''))
                         \<and> opt_chain item (js ''gid'') = v))
                 \<longrightarrow> v \<in> set ids))
       \<and> (\<forall>s. raw = Str s \<longrightarrow>
            (\<forall>i \<in> set ids. \<exists>t. i = Str t \<and> startsWith t (js ''gid://'')))"
proof -
  have arr: "(\<forall>s. s \<noteq> [] \<and> Str s \<in> set xs \<longrightarrow> Str s \<in> set ids)
      \<and> (\<forall>item v. item \<in> set xs \<and> \<not> is_string item \<and> truthy v
             \<and> (opt_chain item (js ''id'') = v
                 \<or> (\<not> truthy (opt_chain item (js ''id''))
                     \<and> opt_chain item (js ''gid'') = v))
             \<longrightarrow> v \<in> set ids)" if raw: "raw = Arr xs" for xs
  proof -
    from resolve_raw_normalize [OF assms(1)] raw assms(2)
    have ids: "ids = filter truthy (map pick_id xs)"
      by simp
    have a: "Str s \<in> set ids" if "s \<noteq> []" and "Str s \<in> set xs" for s
    proof -
      have "pick_id (Str s) = Str s"
        by (simp add: pick_id_cases)
      with that show ?thesis
        unfolding ids by (force simp: image_iff)
    qed
    have b: "v \<in> set ids" if "item \<in> set xs" and "\<not> is_string item" and "truthy v"
      and "opt_chain item (js ''id'') = v
           \<or> (\<not> truthy (opt_chain item (js ''id'')) \<and> opt_chain item (js ''gid'') = v)"
      for item v
    proof -
      from that(2-4) have "pick_id item = v"
        by (auto simp: pick_id_cases)
      with that(1,3) show ?thesis
        unfolding ids by (force simp: image_iff)
    qed
    from a b show ?thesis
      by blast
  qed
  have str: "\<forall>i \<in> set ids. \<exists>t. i = Str t \<and> startsWith t (js ''gid://'')" if raw: "raw = Str s" for s
  proof -
    from resolve_raw_normalize [OF assms(1)] raw assms(2)
    have "ids = ids_of_raw (Str s)"
      by simp
    then show ?thesis
      by (auto split: if_splits)
  qed
  from arr str show ?thesis
    by blast
qed

text \<open>
  C10 on \<open>unchecked_items\<close>: \<^verbatim>\<open>"not-a-gid"\<close> and the number 42 are identifiers and reach the
  operation as they are, while the string \<^verbatim>\<open>"not-a-gid, gid://shopify/ProductVariant/1"\<close>
  keeps its second piece only.
\<close>

theorem C10_witness:
  "normalizeVariantIds (metafield list_variant_reference (Arr unchecked_items) Null)
     = Inr [Str (js ''not-a-gid''), Num (Finite 42)]
   \<and> Str (js ''not-a-gid'') \<in> set [Str (js ''not-a-gid''), Num (Finite 42)]
   \<and> Num (Finite 42) \<in> set [Str (js ''not-a-gid''), Num (Finite 42)]
   \<and> \<not> startsWith (js ''not-a-gid'') (js ''gid://'')
   \<and> cartTransformRun
        (cart_input [variant_line (Str (js ''line-8'')) (Num (Finite 1))
                       (metafield list_variant_reference (Arr unchecked_items) Null)])
       = Inr \<lparr>operations =
               [\<lparr>lineExpand =
                   \<lparr>cartLineId = Str (js ''line-8''),
                    expandedCartItems =
                      [\<lparr>merchandiseId = Str (js ''not-a-gid''), quantity = Num (Finite 1)\<rparr>,
                       \<lparr>merchandiseId = Num (Finite 42), quantity = Num (Finite 1)\<rparr>]\<rparr>\<rparr>]\<rparr>
   \<and> normalizeVariantIds
        (metafield list_variant_reference
           (Str (js ''not-a-gid, gid://shopify/ProductVariant/1'')) Null)
       = Inr [Str (variant_gid ''1'')]"
proof -
  let ?mf = "metafield list_variant_reference (Arr unchecked_items) Null"
  have raw: "resolve_raw ?mf = Inr (Arr unchecked_items)"
    by code_simp
  have ids: "normalizeVariantIds ?mf = Inr [Str (js ''not-a-gid''), Num (Finite 42)]"
    by code_simp
  have s: "js ''not-a-gid'' \<noteq> [] \<and> Str (js ''not-a-gid'') \<in> set unchecked_items"
    by code_simp
  have n: "Obj [(js ''id'', Num (Finite 42))] \<in> set unchecked_items
      \<and> \<not> is_string (Obj [(js ''id'', Num (Finite 42))]) \<and> truthy (Num (Finite 42))
      \<and> opt_chain (Obj [(js ''id'', Num (Finite 42))]) (js ''id'') = Num (Finite 42)"
    by code_simp
  have rest: "\<not> startsWith (js ''not-a-gid'') (js ''gid://'')
   \<and> cartTransformRun
        (cart_input [variant_line (Str (js ''line-8'')) (Num (Finite 1))
                       (metafield list_variant_reference (Arr unchecked_items) Null)])
       = Inr \<lparr>operations =
               [\<lparr>lineExpand =
                   \<lparr>cartLineId = Str (js ''line-8''),
                    expandedCartItems =
                      [\<lparr>merchandiseId = Str (js ''not-a-gid''), quantity = Num (Finite 1)\<rparr>,
                       \<lparr>merchandiseId = Num (Finite 42), quantity = Num (Finite 1)\<rparr>]\<rparr>\<rparr>]\<rparr>
   \<and> normalizeVariantIds
        (metafield list_variant_reference
           (Str (js ''not-a-gid, gid://shopify/ProductVariant/1'')) Null)
       = Inr [Str (variant_gid ''1'')]"
    by code_simp
  from C10_array_branch_unvalidated [OF raw ids] s n
  have "Str (js ''not-a-gid'') \<in> set [Str (js ''not-a-gid''), Num (Finite 42)]
      \<and> Num (Finite 42) \<in> set [Str (js ''not-a-gid''), Num (Finite 42)]"
    by blast
  with ids rest show ?thesis
    by blast
qed

end
